theory Spec2Isabelle
  imports Main
begin

section \<open>The tiered storage wrapper of script.js\<close>

text \<open>
  The first closure of \<^verbatim>\<open>src/script.js\<close> (lines 11 to 187) builds one object
  \<^verbatim>\<open>storage\<close> with a synchronous read interface over an in-memory cache, and an
  initialisation routine that tries localStorage, then IndexedDB, then an Android bridge
  object, and finally stays in memory. This theory embeds that closure.

  Keys and stored values are JavaScript strings, written here as \<open>string\<close>. What the
  host environment supplies (the native stores, the bridge objects, the cookie text and
  the builtin \<^verbatim>\<open>decodeURIComponent\<close>) is collected in the record \<open>env\<close>; the mutable
  variables of the closure are the record \<open>storage\<close>.
\<close>

subsection \<open>Values and the cache object\<close>

text \<open>
  The argument of \<^verbatim>\<open>setItem\<close> is coerced with \<^verbatim>\<open>String(value)\<close>. The primitive values
  undefined, null, booleans and strings are covered; numbers (floating-point printing)
  and objects (user-defined \<^verbatim>\<open>toString\<close>) are left out.
\<close>

datatype jsval = JUndefined | JNull | JBool bool | JStr string

fun String_js :: "jsval \<Rightarrow> string" where
  "String_js JUndefined = ''undefined''"
| "String_js JNull = ''null''"
| "String_js (JBool True) = ''true''"
| "String_js (JBool False) = ''false''"
| "String_js (JStr s) = s"

text \<open>
  \<^verbatim>\<open>_cache\<close> is created by the object literal \<^verbatim>\<open>{}\<close>, so it is an ordinary object whose
  prototype is \<^verbatim>\<open>Object.prototype\<close>. The map below holds its own properties.

  \<^item> \<^verbatim>\<open>_cache[k] = v\<close>: every property of \<^verbatim>\<open>Object.prototype\<close> is a writable data
    property, for which the assignment creates an own property on the cache, except the
    accessor \<^verbatim>\<open>__proto__\<close>: there the assignment runs the inherited setter, which
    ignores a value that is neither an object nor null. The values assigned in this
    program are strings, so an assignment to the key \<^verbatim>\<open>__proto__\<close> changes nothing.
  \<^item> \<^verbatim>\<open>delete _cache[k]\<close> removes the own property, if there is one.
\<close>

type_synonym jsobject = "string \<rightharpoonup> string"

definition cache_put :: "jsobject \<Rightarrow> string \<Rightarrow> string \<Rightarrow> jsobject" where
  "cache_put c k v = (if k = ''__proto__'' then c else c(k \<mapsto> v))"

definition cache_delete :: "jsobject \<Rightarrow> string \<Rightarrow> jsobject" where
  "cache_delete c k = c(k := None)"

subsection \<open>The host environment\<close>

text \<open>
  A bridge object \<^verbatim>\<open>window[name]\<close>: which of the methods the code tests for it has, and
  what a call \<^verbatim>\<open>api.getItem(k)\<close> does.
\<close>

datatype bridge_read = Throws | Null | Undefined | Value string

record bridge =
  has_setItem :: bool
  has_set :: bool
  has_getItem :: bool
  has_removeItem :: bool
  bridge_getItem :: "string \<Rightarrow> bridge_read"

text \<open>
  IndexedDB, as far as \<^verbatim>\<open>openIndexedDB\<close> and \<^verbatim>\<open>tryIndexedDB\<close> observe it: the open request
  fails, never answers, or yields a database; on a database, creating the read
  transaction and cursor may throw; otherwise the cursor delivers \<open>kv\<close> in order and
  then ends with a null cursor, with an error event, or with no further event.
\<close>

datatype cursor_end = CursorDone | CursorError | CursorStalls

record database =
  tx_throws :: bool
  kv :: "(string \<times> string) list"
  cursor_ends :: cursor_end

datatype idb_open = NoIndexedDB | OpenError | OpenStalls | Opened database

text \<open>
  The native calls made by the persistence helpers after initialisation. Each helper
  wraps its call in \<^verbatim>\<open>try { } catch(e) { }\<close>; \<open>native_throws\<close> says which calls throw,
  given the calls completed so far.
\<close>

datatype native_call =
    LS_setItem string string
  | LS_removeItem string
  | LS_clear
  | IDB_put string string
  | IDB_delete string
  | IDB_clear
  | Bridge_setItem string string string
  | Bridge_set string string string
  | Bridge_removeItem string string

record env =
  ls_probe_ok :: bool
  ls_entries :: "(string \<times> string) list"
  idb :: idb_open
  window :: "string \<Rightarrow> bridge option"
  document_cookie :: "string option"
  decodeURIComponent :: "string \<Rightarrow> string option"
  native_throws :: "native_call list \<Rightarrow> native_call \<Rightarrow> bool"

text \<open>
  \<open>ls_probe_ok\<close>: the two calls \<^verbatim>\<open>localStorage.setItem('__mig_test__','1')\<close> and
  \<^verbatim>\<open>localStorage.removeItem('__mig_test__')\<close> return without an exception.
  \<open>ls_entries\<close>: what localStorage holds when the script starts, as the pairs
  \<^verbatim>\<open>(localStorage.key(i), localStorage.getItem(key(i)))\<close> for \<^verbatim>\<open>i = 0 .. length-1\<close>.
  \<open>window name\<close>: \<open>None\<close> when \<^verbatim>\<open>window[name]\<close> is falsy.
  \<open>document_cookie\<close>: \<open>None\<close> when reading \<^verbatim>\<open>document.cookie\<close> throws.
  \<open>decodeURIComponent\<close>: the builtin, \<open>None\<close> when it throws URIError.
\<close>

subsection \<open>The closure's variables\<close>

datatype set_binding =
  SetNoop | SetLS | SetIDB | SetBridgeSetItem string | SetBridgeSet string | SetBridgeWarn

datatype remove_binding = RemoveNoop | RemoveLS | RemoveIDB | RemoveBridge string bool

datatype clear_binding = ClearNoop | ClearLS | ClearIDB

record storage =
  backend :: string
  cache :: jsobject
  idb_handle :: bool
  persistSet :: set_binding
  persistRemove :: remove_binding
  persistClear :: clear_binding
  calls :: "native_call list"

text \<open>
  \<open>backend\<close>, \<open>cache\<close> and \<open>idb_handle\<close> are the fields \<^verbatim>\<open>backend\<close>, \<^verbatim>\<open>_cache\<close> and
  \<^verbatim>\<open>_idb\<close> (null or a database). \<open>persistSet\<close>, \<open>persistRemove\<close> and \<open>persistClear\<close>
  name the closure currently held by the three \<^verbatim>\<open>let\<close> variables. \<open>calls\<close> lists the
  native persistence calls that have completed, oldest first.
\<close>

definition storage0 :: storage where
  "storage0 = \<lparr> backend = ''none'', cache = Map.empty, idb_handle = False,
     persistSet = SetNoop, persistRemove = RemoveNoop, persistClear = ClearNoop,
     calls = [] \<rparr>"

subsection \<open>Persistence helpers\<close>

definition try_native :: "env \<Rightarrow> storage \<Rightarrow> native_call \<Rightarrow> storage" where
  "try_native e s c =
     (if native_throws e (calls s) c then s else s\<lparr> calls := calls s @ [c] \<rparr>)"

definition call_persistSet :: "env \<Rightarrow> storage \<Rightarrow> string \<Rightarrow> string \<Rightarrow> storage" where
  "call_persistSet e s k v =
     (case persistSet s of
        SetNoop \<Rightarrow> s
      | SetLS \<Rightarrow> try_native e s (LS_setItem k v)
      | SetIDB \<Rightarrow> try_native e s (IDB_put v k)
      | SetBridgeSetItem n \<Rightarrow> try_native e s (Bridge_setItem n k v)
      | SetBridgeSet n \<Rightarrow> try_native e s (Bridge_set n k v)
      | SetBridgeWarn \<Rightarrow> s)"

definition call_persistRemove :: "env \<Rightarrow> storage \<Rightarrow> string \<Rightarrow> storage" where
  "call_persistRemove e s k =
     (case persistRemove s of
        RemoveNoop \<Rightarrow> s
      | RemoveLS \<Rightarrow> try_native e s (LS_removeItem k)
      | RemoveIDB \<Rightarrow> try_native e s (IDB_delete k)
      | RemoveBridge n has \<Rightarrow> (if has then try_native e s (Bridge_removeItem n k) else s))"

definition call_persistClear :: "env \<Rightarrow> storage \<Rightarrow> storage" where
  "call_persistClear e s =
     (case persistClear s of
        ClearNoop \<Rightarrow> s
      | ClearLS \<Rightarrow> try_native e s LS_clear
      | ClearIDB \<Rightarrow> try_native e s IDB_clear)"

subsection \<open>The facade: getItem, setItem, removeItem, clear\<close>

text \<open>
  \<^verbatim>\<open>getItem(key){ return (this._cache.hasOwnProperty(key) ? this._cache[key] : null); }\<close>

  The method \<^verbatim>\<open>hasOwnProperty\<close> is looked up on the cache itself. While the cache has no
  own property of that name the lookup finds \<^verbatim>\<open>Object.prototype.hasOwnProperty\<close>, which
  tests the own properties. Once the cache has an own property \<^verbatim>\<open>hasOwnProperty\<close> its
  value, a string, is what gets called, and the call throws a TypeError. The result
  \<open>Inr None\<close> is \<^verbatim>\<open>null\<close>.
\<close>

datatype error = TypeError

definition getItem :: "storage \<Rightarrow> string \<Rightarrow> error + string option" where
  "getItem s key =
     (case cache s ''hasOwnProperty'' of
        Some f \<Rightarrow> Inl TypeError
      | None \<Rightarrow> Inr (cache s key))"

definition setItem :: "env \<Rightarrow> storage \<Rightarrow> string \<Rightarrow> jsval \<Rightarrow> storage" where
  "setItem e s key val =
     call_persistSet e (s\<lparr> cache := cache_put (cache s) key (String_js val) \<rparr>)
       key (String_js val)"

definition removeItem :: "env \<Rightarrow> storage \<Rightarrow> string \<Rightarrow> storage" where
  "removeItem e s key =
     call_persistRemove e (s\<lparr> cache := cache_delete (cache s) key \<rparr>) key"

definition clear :: "env \<Rightarrow> storage \<Rightarrow> storage" where
  "clear e s = call_persistClear e (s\<lparr> cache := Map.empty \<rparr>)"

text \<open>A sequence of mutating calls on the facade.\<close>

datatype op = SetItem string jsval | RemoveItem string | Clear

fun apply_op :: "env \<Rightarrow> storage \<Rightarrow> op \<Rightarrow> storage" where
  "apply_op e s (SetItem k v) = setItem e s k v"
| "apply_op e s (RemoveItem k) = removeItem e s k"
| "apply_op e s Clear = clear e s"

definition run_ops :: "env \<Rightarrow> storage \<Rightarrow> op list \<Rightarrow> storage" where
  "run_ops e s ops = foldl (apply_op e) s ops"

subsection \<open>tryLocalStorage\<close>

text \<open>
  The probe \<^verbatim>\<open>setItem(testKey, '1'); removeItem(testKey)\<close> runs before the loop. When both
  calls return, an entry that the store held under \<^verbatim>\<open>__mig_test__\<close> has been overwritten
  and removed; the other entries are as they were.
\<close>

definition testKey :: string where
  "testKey = ''__mig_test__''"

definition ls_after_probe :: "(string \<times> string) list \<Rightarrow> (string \<times> string) list" where
  "ls_after_probe entries = filter (\<lambda>kv. fst kv \<noteq> testKey) entries"

text \<open>
  The loop \<^verbatim>\<open>for(i...){ k = key(i); v = getItem(k); if (k) _cache[k] = v; }\<close>: the empty
  string is falsy, so an entry stored under the empty key is not copied.
\<close>

fun ls_load :: "(string \<times> string) list \<Rightarrow> jsobject \<Rightarrow> jsobject" where
  "ls_load [] c = c"
| "ls_load ((k, v) # rest) c = ls_load rest (if k \<noteq> [] then cache_put c k v else c)"

definition tryLocalStorage :: "env \<Rightarrow> storage \<Rightarrow> bool \<times> storage" where
  "tryLocalStorage e s =
     (if ls_probe_ok e
      then (True, s\<lparr> backend := ''localStorage'',
                     cache := ls_load (ls_after_probe (ls_entries e)) (cache s),
                     persistSet := SetLS, persistRemove := RemoveLS,
                     persistClear := ClearLS \<rparr>)
      else (False, s))"

subsection \<open>tryIndexedDB\<close>

text \<open>
  An \<^verbatim>\<open>async\<close> function returns a promise, which ends resolved with a value, rejected,
  or never settles.
\<close>

datatype 'a promise = Resolved 'a | Rejected | Pending

fun idb_load :: "(string \<times> string) list \<Rightarrow> jsobject \<Rightarrow> jsobject" where
  "idb_load [] c = c"
| "idb_load ((k, v) # rest) c = idb_load rest (cache_put c k v)"

text \<open>
  \<^verbatim>\<open>await openIndexedDB()\<close> and the three statements that create the transaction, the
  store and the cursor are inside \<^verbatim>\<open>try\<close>, so a rejection or exception there reaches
  \<^verbatim>\<open>catch\<close>, which returns false. The cursor loop lives in a promise that is returned
  without \<^verbatim>\<open>await\<close>: the \<^verbatim>\<open>try\<close> block has been left when that promise settles, so its
  rejection (\<^verbatim>\<open>allReq.onerror\<close>) becomes the rejection of \<^verbatim>\<open>tryIndexedDB()\<close> itself.
\<close>

definition tryIndexedDB :: "env \<Rightarrow> storage \<Rightarrow> bool promise \<times> storage" where
  "tryIndexedDB e s =
     (case idb e of
        NoIndexedDB \<Rightarrow> (Resolved False, s)
      | OpenError \<Rightarrow> (Resolved False, s)
      | OpenStalls \<Rightarrow> (Pending, s)
      | Opened db \<Rightarrow>
          (let s1 = s\<lparr> idb_handle := True, backend := ''indexedDB'' \<rparr> in
           if tx_throws db then (Resolved False, s1)
           else
             (let s2 = s1\<lparr> cache := idb_load (kv db) (cache s1) \<rparr> in
              case cursor_ends db of
                CursorDone \<Rightarrow>
                  (Resolved True, s2\<lparr> persistSet := SetIDB, persistRemove := RemoveIDB,
                                      persistClear := ClearIDB \<rparr>)
              | CursorError \<Rightarrow> (Rejected, s2)
              | CursorStalls \<Rightarrow> (Pending, s2))))"

subsection \<open>tryAndroidBridge\<close>

definition candidates :: "string list" where
  "candidates = [''AndroidStorage'', ''Android'', ''AndroidBridge'', ''android'']"

definition keysToTry :: "string list" where
  "keysToTry = [''migstar_user'', ''migstar_missionPool'', ''migstar_transactions'',
     ''migstar_history'', ''migstar_todayMissions'']"

fun bridge_load :: "bridge \<Rightarrow> string list \<Rightarrow> jsobject \<Rightarrow> jsobject" where
  "bridge_load api [] c = c"
| "bridge_load api (k # ks) c =
     bridge_load api ks
       (case bridge_getItem api k of
          Value v \<Rightarrow> cache_put c k v
        | Throws \<Rightarrow> c
        | Null \<Rightarrow> c
        | Undefined \<Rightarrow> c)"

definition bind_bridge_set :: "string \<Rightarrow> bridge \<Rightarrow> set_binding" where
  "bind_bridge_set name api =
     (if has_setItem api then SetBridgeSetItem name
      else if has_set api then SetBridgeSet name
      else SetBridgeWarn)"

fun bridge_loop :: "env \<Rightarrow> string list \<Rightarrow> storage \<Rightarrow> bool \<times> storage" where
  "bridge_loop e [] s = (False, s)"
| "bridge_loop e (name # rest) s =
     (case window e name of
        None \<Rightarrow> bridge_loop e rest s
      | Some api \<Rightarrow>
          (let s1 = s\<lparr> backend := ''android:'' @ name \<rparr>;
               s2 = s1\<lparr> persistSet := bind_bridge_set name api \<rparr>
           in if has_getItem api
              then (True, s2\<lparr> persistRemove := RemoveBridge name (has_removeItem api),
                              cache := bridge_load api keysToTry (cache s2) \<rparr>)
              else bridge_loop e rest s2))"

definition tryAndroidBridge :: "env \<Rightarrow> storage \<Rightarrow> bool \<times> storage" where
  "tryAndroidBridge e s = bridge_loop e candidates s"

subsection \<open>The cookie fallback and init\<close>

text \<open>
  \<^verbatim>\<open>String.prototype.split\<close> with a separator string; the two separators of the source,
  \<^verbatim>\<open>'; '\<close> and \<^verbatim>\<open>'='\<close>, are not empty.
\<close>

fun cons_first :: "char \<Rightarrow> string list \<Rightarrow> string list" where
  "cons_first c [] = [[c]]"
| "cons_first c (p # ps) = (c # p) # ps"

fun split_js :: "string \<Rightarrow> string \<Rightarrow> string list" where
  "split_js sep [] = [[]]"
| "split_js sep (c # cs) =
     (if sep \<noteq> [] \<and> take (length sep) (c # cs) = sep
      then [] # split_js sep (drop (length sep) (c # cs))
      else cons_first c (split_js sep cs))"

text \<open>
  One turn of \<^verbatim>\<open>cookies.forEach(([k,v])=>{ try { _cache[decodeURIComponent(k)] =
  decodeURIComponent(v); } catch(e){} })\<close>. The pattern \<^verbatim>\<open>[k,v]\<close> takes the first two
  parts of the entry; a missing part is \<^verbatim>\<open>undefined\<close>, which the decoder first turns into
  the text \<^verbatim>\<open>undefined\<close>. The key is decoded before the value, and the assignment happens
  only when neither call threw.
\<close>

fun part_text :: "string list \<Rightarrow> nat \<Rightarrow> string" where
  "part_text [] n = ''undefined''"
| "part_text (p # ps) 0 = p"
| "part_text (p # ps) (Suc n) = part_text ps n"

definition cookie_entry :: "(string \<Rightarrow> string option) \<Rightarrow> jsobject \<Rightarrow> string list \<Rightarrow> jsobject"
  where
  "cookie_entry dec c parts =
     (case dec (part_text parts 0) of
        None \<Rightarrow> c
      | Some k \<Rightarrow>
          (case dec (part_text parts 1) of
             None \<Rightarrow> c
           | Some v \<Rightarrow> cache_put c k v))"

definition cookie_parts :: "string option \<Rightarrow> string list list" where
  "cookie_parts dc =
     (case dc of
        None \<Rightarrow> []
      | Some text \<Rightarrow>
          (if text = [] then [] else map (split_js ''='') (split_js ''; '' text)))"

definition load_cookies :: "env \<Rightarrow> jsobject \<Rightarrow> jsobject" where
  "load_cookies e c =
     foldl (cookie_entry (decodeURIComponent e)) c (cookie_parts (document_cookie e))"

text \<open>
  \<^verbatim>\<open>init\<close> awaits the three attempts in turn. Nothing in \<^verbatim>\<open>init\<close> catches a rejection of
  \<^verbatim>\<open>tryIndexedDB()\<close>, so \<^verbatim>\<open>init()\<close>, and with it \<^verbatim>\<open>storage.ready = init().then(...)\<close>, is
  rejected when that attempt is, and stays pending when that attempt does.
  The result pairs the state of \<^verbatim>\<open>storage.ready\<close> with the closure's variables.
\<close>

definition init :: "env \<Rightarrow> storage \<Rightarrow> unit promise \<times> storage" where
  "init e s =
     (case tryLocalStorage e s of
        (True, s1) \<Rightarrow> (Resolved (), s1)
      | (False, s1) \<Rightarrow>
          (case tryIndexedDB e s1 of
             (Rejected, s2) \<Rightarrow> (Rejected, s2)
           | (Pending, s2) \<Rightarrow> (Pending, s2)
           | (Resolved True, s2) \<Rightarrow> (Resolved (), s2)
           | (Resolved False, s2) \<Rightarrow>
               (case tryAndroidBridge e s2 of
                  (True, s3) \<Rightarrow> (Resolved (), s3)
                | (False, s3) \<Rightarrow>
                    (Resolved (),
                     s3\<lparr> cache := load_cookies e (cache s3), backend := ''memory'' \<rparr>))))"

definition ready :: "env \<Rightarrow> unit promise" where
  "ready e = fst (init e storage0)"

definition booted :: "env \<Rightarrow> storage" where
  "booted e = snd (init e storage0)"

subsection \<open>Conditions on the environment\<close>

text \<open>
  \<open>idb_fails\<close>: \<^verbatim>\<open>tryIndexedDB\<close> reaches its \<^verbatim>\<open>catch\<close> and returns false.
  \<open>idb_loads\<close>: the database opens and the cursor runs to its end.
  \<open>bridge_usable e name\<close>: \<^verbatim>\<open>window[name]\<close> is truthy and has a function \<^verbatim>\<open>getItem\<close>.
  \<open>first_bridge\<close>: the first candidate name with a usable bridge.
\<close>

definition idb_fails :: "env \<Rightarrow> bool" where
  "idb_fails e =
     (case idb e of
        NoIndexedDB \<Rightarrow> True
      | OpenError \<Rightarrow> True
      | OpenStalls \<Rightarrow> False
      | Opened db \<Rightarrow> tx_throws db)"

definition idb_loads :: "env \<Rightarrow> bool" where
  "idb_loads e =
     (case idb e of
        Opened db \<Rightarrow> \<not> tx_throws db \<and> cursor_ends db = CursorDone
      | NoIndexedDB \<Rightarrow> False
      | OpenError \<Rightarrow> False
      | OpenStalls \<Rightarrow> False)"

definition bridge_usable :: "env \<Rightarrow> string \<Rightarrow> bool" where
  "bridge_usable e name =
     (case window e name of None \<Rightarrow> False | Some api \<Rightarrow> has_getItem api)"

definition first_bridge :: "env \<Rightarrow> string option" where
  "first_bridge e = find (bridge_usable e) candidates"

subsection \<open>Concrete environments\<close>

text \<open>
  A decoder for the concrete runs below. It follows the builtin on text whose escapes
  are single bytes below 0x80: such an escape gives its character, every other
  character is copied, and a \<^verbatim>\<open>%\<close> that is not followed by two hexadecimal digits is a
  URIError. An escape from 0x80 on starts a multi-byte UTF-8 sequence, whose code point
  need not fit a \<open>char\<close>; this decoder reports it as an error, and no run below
  contains one. The general theorems hold for every decoder.
\<close>

definition hex_digit :: "char \<Rightarrow> nat option" where
  "hex_digit c =
     (if c \<in> set ''0123456789'' then Some (of_char c - 48)
      else if c \<in> set ''abcdef'' then Some (of_char c - 87)
      else if c \<in> set ''ABCDEF'' then Some (of_char c - 55)
      else None)"

fun decodeURIComponent_ascii :: "string \<Rightarrow> string option" where
  "decodeURIComponent_ascii [] = Some []"
| "decodeURIComponent_ascii (c # cs) =
     (if c = CHR ''%''
      then (case cs of
              h1 # h2 # rest \<Rightarrow>
                (case (hex_digit h1, hex_digit h2) of
                   (Some a, Some b) \<Rightarrow>
                     (if 16 * a + b < 128
                      then map_option ((#) (char_of (16 * a + b)))
                             (decodeURIComponent_ascii rest)
                      else None)
                 | (Some a, None) \<Rightarrow> None
                 | (None, y) \<Rightarrow> None)
            | [h1] \<Rightarrow> None
            | [] \<Rightarrow> None)
      else map_option ((#) c) (decodeURIComponent_ascii cs))"

text \<open>No native store, no bridge object, no readable cookie text.\<close>

definition env_bare :: env where
  "env_bare = \<lparr> ls_probe_ok = False, ls_entries = [], idb = NoIndexedDB,
     window = (\<lambda>name. None), document_cookie = None,
     decodeURIComponent = decodeURIComponent_ascii,
     native_throws = (\<lambda>done c. False) \<rparr>"

text \<open>A database holding a and b whose cursor runs to the end.\<close>

definition db_ab :: database where
  "db_ab = \<lparr> tx_throws = False, kv = [(''a'', ''1''), (''b'', ''2'')],
     cursor_ends = CursorDone \<rparr>"

text \<open>A bridge with \<^verbatim>\<open>getItem\<close> and \<^verbatim>\<open>setItem\<close> that holds a, b, x and one well-known key.\<close>

definition bridge_abx :: bridge where
  "bridge_abx = \<lparr> has_setItem = True, has_set = False, has_getItem = True,
     has_removeItem = True,
     bridge_getItem = (\<lambda>k. if k = ''a'' then Value ''1''
                            else if k = ''b'' then Value ''2''
                            else if k = ''x'' then Value ''9''
                            else if k = ''migstar_user'' then Value ''{}''
                            else Null) \<rparr>"

text \<open>A bridge object that offers none of the storage methods.\<close>

definition bridge_plain :: bridge where
  "bridge_plain = \<lparr> has_setItem = False, has_set = False, has_getItem = False,
     has_removeItem = False, bridge_getItem = (\<lambda>k. Throws) \<rparr>"

definition window_android :: "bridge \<Rightarrow> string \<Rightarrow> bridge option" where
  "window_android api name = (if name = ''Android'' then Some api else None)"

subsection \<open>Sequences of calls on one key\<close>

text \<open>
  What the last call that affects key \<open>k\<close> leaves for it, written from the claim:
  the coerced value after \<^verbatim>\<open>setItem(k, v)\<close>, nothing after \<^verbatim>\<open>removeItem(k)\<close> or
  \<^verbatim>\<open>clear()\<close>.
\<close>

fun last_operation :: "string \<Rightarrow> string option \<Rightarrow> op \<Rightarrow> string option" where
  "last_operation k cur (SetItem k' v) = (if k' = k then Some (String_js v) else cur)"
| "last_operation k cur (RemoveItem k') = (if k' = k then None else cur)"
| "last_operation k cur Clear = None"

fun ordinary_op :: "op \<Rightarrow> bool" where
  "ordinary_op (SetItem k v) = (k \<noteq> ''__proto__'' \<and> k \<noteq> ''hasOwnProperty'')"
| "ordinary_op (RemoveItem k) = True"
| "ordinary_op Clear = True"

subsection \<open>The tags a finished initialisation can leave\<close>

definition tier_tags :: "string list" where
  "tier_tags = ''localStorage'' # ''indexedDB'' # ''memory'' # map ((@) ''android:'') candidates"

subsection \<open>Cookie entries that cannot be decoded\<close>

text \<open>
  The only failure the \<^verbatim>\<open>try\<close> around one cookie entry can meet is a URIError from one of
  the two \<^verbatim>\<open>decodeURIComponent\<close> calls. An entry is undecodable when its key part or its
  value part makes the decoder throw. This is narrower than an entry that is not of the
  form key=value: an entry without \<^verbatim>\<open>=\<close> can be decoded.
\<close>

definition undecodable :: "(string \<Rightarrow> string option) \<Rightarrow> string list \<Rightarrow> bool" where
  "undecodable dec parts = (dec (part_text parts 0) = None \<or> dec (part_text parts 1) = None)"

section \<open>How init runs through the tiers\<close>

lemma tryLocalStorage_fails:
  "\<not> ls_probe_ok e \<Longrightarrow> tryLocalStorage e s = (False, s)"
  by (simp add: tryLocalStorage_def)

lemma tryIndexedDB_fails:
  "idb_fails e \<Longrightarrow> fst (tryIndexedDB e s) = Resolved False"
  by (auto simp: idb_fails_def tryIndexedDB_def Let_def split: idb_open.splits)

lemma tryIndexedDB_fails_state:
  "idb_fails e \<Longrightarrow>
     cache (snd (tryIndexedDB e s)) = cache s \<and>
     persistSet (snd (tryIndexedDB e s)) = persistSet s \<and>
     persistRemove (snd (tryIndexedDB e s)) = persistRemove s \<and>
     persistClear (snd (tryIndexedDB e s)) = persistClear s \<and>
     calls (snd (tryIndexedDB e s)) = calls s"
  by (auto simp: idb_fails_def tryIndexedDB_def Let_def split: idb_open.splits)

lemma tryIndexedDB_loads:
  "idb_loads e \<Longrightarrow>
     fst (tryIndexedDB e s) = Resolved True \<and> backend (snd (tryIndexedDB e s)) = ''indexedDB''"
  by (auto simp: idb_loads_def tryIndexedDB_def Let_def split: idb_open.splits)

text \<open>The loop over the candidate names, by induction on the names still to try.\<close>

lemma bridge_loop_found:
  "find (bridge_usable e) names = Some n \<Longrightarrow>
     fst (bridge_loop e names s) = True \<and>
     backend (snd (bridge_loop e names s)) = ''android:'' @ n"
proof (induction names arbitrary: s)
  case Nil
  then show ?case by simp
next
  case (Cons name rest)
  show ?case
  proof (cases "window e name")
    case None
    with Cons show ?thesis by (simp add: bridge_usable_def)
  next
    case (Some api)
    with Cons show ?thesis
      by (cases "has_getItem api") (simp_all add: bridge_usable_def Let_def)
  qed
qed

lemma bridge_loop_none:
  "find (bridge_usable e) names = None \<Longrightarrow>
     fst (bridge_loop e names s) = False \<and>
     cache (snd (bridge_loop e names s)) = cache s \<and>
     calls (snd (bridge_loop e names s)) = calls s"
proof (induction names arbitrary: s)
  case Nil
  then show ?case by simp
next
  case (Cons name rest)
  show ?case
  proof (cases "window e name")
    case None
    with Cons show ?thesis by (simp add: bridge_usable_def)
  next
    case (Some api)
    with Cons show ?thesis
      by (cases "has_getItem api") (simp_all add: bridge_usable_def Let_def)
  qed
qed

lemma bridge_loop_window:
  "window e' = window e \<Longrightarrow> bridge_loop e' names s = bridge_loop e names s"
  by (induction names arbitrary: s) (simp_all add: Let_def split: option.splits)

lemma init_localStorage:
  "ls_probe_ok e \<Longrightarrow> init e s = (Resolved (), snd (tryLocalStorage e s))"
  by (simp add: init_def tryLocalStorage_def)

lemma init_after_localStorage:
  "\<not> ls_probe_ok e \<Longrightarrow>
     init e s =
       (case tryIndexedDB e s of
          (Rejected, s2) \<Rightarrow> (Rejected, s2)
        | (Pending, s2) \<Rightarrow> (Pending, s2)
        | (Resolved True, s2) \<Rightarrow> (Resolved (), s2)
        | (Resolved False, s2) \<Rightarrow>
            (case tryAndroidBridge e s2 of
               (True, s3) \<Rightarrow> (Resolved (), s3)
             | (False, s3) \<Rightarrow>
                 (Resolved (),
                  s3\<lparr> cache := load_cookies e (cache s3), backend := ''memory'' \<rparr>)))"
  by (simp add: init_def tryLocalStorage_def)

lemma init_indexedDB:
  "\<not> ls_probe_ok e \<Longrightarrow> idb_loads e \<Longrightarrow> init e s = (Resolved (), snd (tryIndexedDB e s))"
  using tryIndexedDB_loads [of e s]
  by (cases "tryIndexedDB e s") (simp add: init_after_localStorage)

lemma init_after_indexedDB:
  "\<not> ls_probe_ok e \<Longrightarrow> idb_fails e \<Longrightarrow>
     init e s =
       (case tryAndroidBridge e (snd (tryIndexedDB e s)) of
          (True, s3) \<Rightarrow> (Resolved (), s3)
        | (False, s3) \<Rightarrow>
            (Resolved (), s3\<lparr> cache := load_cookies e (cache s3), backend := ''memory'' \<rparr>))"
  using tryIndexedDB_fails [of e s]
  by (cases "tryIndexedDB e s") (simp add: init_after_localStorage)

lemma init_bridge:
  "\<not> ls_probe_ok e \<Longrightarrow> idb_fails e \<Longrightarrow> first_bridge e = Some n \<Longrightarrow>
     init e s = (Resolved (), snd (tryAndroidBridge e (snd (tryIndexedDB e s))))"
  using bridge_loop_found [of e candidates n "snd (tryIndexedDB e s)"]
  by (cases "tryAndroidBridge e (snd (tryIndexedDB e s))")
     (simp add: init_after_indexedDB first_bridge_def tryAndroidBridge_def)

lemma init_memory:
  "\<not> ls_probe_ok e \<Longrightarrow> idb_fails e \<Longrightarrow> first_bridge e = None \<Longrightarrow>
     init e s =
       (Resolved (),
        (snd (tryAndroidBridge e (snd (tryIndexedDB e s))))
          \<lparr> cache := load_cookies e (cache (snd (tryAndroidBridge e (snd (tryIndexedDB e s))))),
             backend := ''memory'' \<rparr>)"
  using bridge_loop_none [of e candidates "snd (tryIndexedDB e s)"]
  by (cases "tryAndroidBridge e (snd (tryIndexedDB e s))")
     (simp add: init_after_indexedDB first_bridge_def tryAndroidBridge_def)

text \<open>Which tag each tier leaves, and that a tier which succeeds hides the later ones.\<close>

lemma tier_localStorage:
  assumes "ls_probe_ok e"
  shows "ready e = Resolved ()" and "backend (booted e) = ''localStorage''"
    and "booted (e\<lparr> idb := i, window := w, document_cookie := c \<rparr>) = booted e"
proof -
  let ?e = "e\<lparr> idb := i, window := w, document_cookie := c \<rparr>"
  show "ready e = Resolved ()" and "backend (booted e) = ''localStorage''"
    using assms by (simp_all add: ready_def booted_def init_localStorage tryLocalStorage_def)
  have "ls_probe_ok ?e"
    using assms by simp
  then have "booted ?e = snd (tryLocalStorage ?e storage0)"
    by (simp add: booted_def init_localStorage)
  also have "\<dots> = snd (tryLocalStorage e storage0)"
    by (simp add: tryLocalStorage_def)
  also have "\<dots> = booted e"
    using assms by (simp add: booted_def init_localStorage)
  finally show "booted ?e = booted e" .
qed

lemma tier_indexedDB:
  assumes "\<not> ls_probe_ok e" and "idb_loads e"
  shows "ready e = Resolved ()" and "backend (booted e) = ''indexedDB''"
    and "booted (e\<lparr> window := w, document_cookie := c \<rparr>) = booted e"
proof -
  let ?e = "e\<lparr> window := w, document_cookie := c \<rparr>"
  have b: "init e storage0 = (Resolved (), snd (tryIndexedDB e storage0))"
    using assms by (rule init_indexedDB)
  show "ready e = Resolved ()"
    by (simp add: ready_def b)
  show "backend (booted e) = ''indexedDB''"
    using tryIndexedDB_loads [OF assms(2), of storage0] by (simp add: booted_def b)
  have "\<not> ls_probe_ok ?e" and "idb_loads ?e"
    using assms by (simp_all add: idb_loads_def)
  then have "init ?e storage0 = (Resolved (), snd (tryIndexedDB ?e storage0))"
    by (rule init_indexedDB)
  moreover have "tryIndexedDB ?e storage0 = tryIndexedDB e storage0"
    by (simp add: tryIndexedDB_def)
  ultimately show "booted ?e = booted e"
    by (simp add: booted_def b)
qed

lemma tier_bridge:
  assumes "\<not> ls_probe_ok e" and "idb_fails e" and "first_bridge e = Some n"
  shows "ready e = Resolved ()" and "backend (booted e) = ''android:'' @ n"
    and "booted (e\<lparr> document_cookie := c \<rparr>) = booted e"
proof -
  let ?e = "e\<lparr> document_cookie := c \<rparr>"
  have b: "init e storage0
      = (Resolved (), snd (tryAndroidBridge e (snd (tryIndexedDB e storage0))))"
    using assms by (rule init_bridge)
  show "ready e = Resolved ()"
    by (simp add: ready_def b)
  have "find (bridge_usable e) candidates = Some n"
    using assms(3) by (simp add: first_bridge_def)
  from bridge_loop_found [OF this, of "snd (tryIndexedDB e storage0)"]
  show "backend (booted e) = ''android:'' @ n"
    by (simp add: booted_def b tryAndroidBridge_def)
  have "bridge_usable ?e = bridge_usable e"
    by (simp add: fun_eq_iff bridge_usable_def)
  then have "\<not> ls_probe_ok ?e" and "idb_fails ?e" and "first_bridge ?e = Some n"
    using assms by (simp_all add: idb_fails_def first_bridge_def)
  then have "init ?e storage0
      = (Resolved (), snd (tryAndroidBridge ?e (snd (tryIndexedDB ?e storage0))))"
    by (rule init_bridge)
  moreover have "tryIndexedDB ?e storage0 = tryIndexedDB e storage0"
    by (simp add: tryIndexedDB_def)
  moreover have "tryAndroidBridge ?e s = tryAndroidBridge e s" for s
    unfolding tryAndroidBridge_def by (rule bridge_loop_window) simp
  ultimately show "booted ?e = booted e"
    by (simp add: booted_def b)
qed

lemma tier_memory:
  assumes "\<not> ls_probe_ok e" and "idb_fails e" and "first_bridge e = None"
  shows "ready e = Resolved ()" and "backend (booted e) = ''memory''"
  using assms by (simp_all add: ready_def booted_def init_memory)

section \<open>Backend priority\<close>

text \<open>
  Claim C3. The tiers are tried in the order localStorage, IndexedDB, Android bridge,
  memory, and the first one that succeeds decides the tag: when the localStorage probe
  succeeds, readiness resolves with the tag ``localStorage'' whatever IndexedDB, the
  bridge objects and the cookie text are; when it fails and IndexedDB opens and loads,
  the tag is ``indexedDB'' whatever the bridge objects and the cookie text are; when
  both fail and \<open>n\<close> is the first candidate name with a usable bridge, the tag is
  ``android:'' followed by \<open>n\<close>, whatever the cookie text is; when there is no usable
  bridge either, the tag is ``memory''. In each case a change to the later tiers leaves
  the state after initialisation as it is, so the later tiers were not consulted.
\<close>

theorem backend_priority:
  "(ls_probe_ok e \<longrightarrow>
      ready e = Resolved () \<and> backend (booted e) = ''localStorage'' \<and>
      booted (e\<lparr> idb := i, window := w, document_cookie := c \<rparr>) = booted e)
   \<and> (\<not> ls_probe_ok e \<and> idb_loads e \<longrightarrow>
      ready e = Resolved () \<and> backend (booted e) = ''indexedDB'' \<and>
      booted (e\<lparr> window := w, document_cookie := c \<rparr>) = booted e)
   \<and> (\<not> ls_probe_ok e \<and> idb_fails e \<and> first_bridge e = Some n \<longrightarrow>
      ready e = Resolved () \<and> backend (booted e) = ''android:'' @ n \<and>
      booted (e\<lparr> document_cookie := c \<rparr>) = booted e)
   \<and> (\<not> ls_probe_ok e \<and> idb_fails e \<and> first_bridge e = None \<longrightarrow>
      ready e = Resolved () \<and> backend (booted e) = ''memory'')"
proof (intro conjI impI)
  assume h: "ls_probe_ok e"
  show "ready e = Resolved ()" by (rule tier_localStorage(1) [OF h])
  show "backend (booted e) = ''localStorage''" by (rule tier_localStorage(2) [OF h])
  show "booted (e\<lparr> idb := i, window := w, document_cookie := c \<rparr>) = booted e"
    by (rule tier_localStorage(3) [OF h])
next
  assume "\<not> ls_probe_ok e \<and> idb_loads e"
  then have h: "\<not> ls_probe_ok e" "idb_loads e" by simp_all
  show "ready e = Resolved ()" by (rule tier_indexedDB(1) [OF h])
  show "backend (booted e) = ''indexedDB''" by (rule tier_indexedDB(2) [OF h])
  show "booted (e\<lparr> window := w, document_cookie := c \<rparr>) = booted e"
    by (rule tier_indexedDB(3) [OF h])
next
  assume "\<not> ls_probe_ok e \<and> idb_fails e \<and> first_bridge e = Some n"
  then have h: "\<not> ls_probe_ok e" "idb_fails e" "first_bridge e = Some n" by simp_all
  show "ready e = Resolved ()" by (rule tier_bridge(1) [OF h])
  show "backend (booted e) = ''android:'' @ n" by (rule tier_bridge(2) [OF h])
  show "booted (e\<lparr> document_cookie := c \<rparr>) = booted e" by (rule tier_bridge(3) [OF h])
next
  assume "\<not> ls_probe_ok e \<and> idb_fails e \<and> first_bridge e = None"
  then have h: "\<not> ls_probe_ok e" "idb_fails e" "first_bridge e = None" by simp_all
  show "ready e = Resolved ()" by (rule tier_memory(1) [OF h])
  show "backend (booted e) = ''memory''" by (rule tier_memory(2) [OF h])
qed

text \<open>
  The four cases at concrete environments: everything available; localStorage failing
  with IndexedDB and a bridge available; only a bridge available; nothing available.
\<close>

theorem backend_priority_witness:
  "ls_probe_ok (env_bare\<lparr> ls_probe_ok := True, idb := Opened db_ab,
        window := window_android bridge_abx \<rparr>)
   \<and> idb_loads (env_bare\<lparr> ls_probe_ok := True, idb := Opened db_ab,
        window := window_android bridge_abx \<rparr>)
   \<and> backend (booted (env_bare\<lparr> ls_probe_ok := True, idb := Opened db_ab,
        window := window_android bridge_abx \<rparr>)) = ''localStorage''
   \<and> \<not> ls_probe_ok (env_bare\<lparr> idb := Opened db_ab, window := window_android bridge_abx \<rparr>)
   \<and> idb_loads (env_bare\<lparr> idb := Opened db_ab, window := window_android bridge_abx \<rparr>)
   \<and> backend (booted (env_bare\<lparr> idb := Opened db_ab, window := window_android bridge_abx \<rparr>))
       = ''indexedDB''
   \<and> idb_fails (env_bare\<lparr> window := window_android bridge_abx \<rparr>)
   \<and> first_bridge (env_bare\<lparr> window := window_android bridge_abx \<rparr>) = Some ''Android''
   \<and> backend (booted (env_bare\<lparr> window := window_android bridge_abx \<rparr>)) = ''android:Android''
   \<and> idb_fails env_bare \<and> first_bridge env_bare = None
   \<and> ready env_bare = Resolved () \<and> backend (booted env_bare) = ''memory''"
proof -
  let ?e1 = "env_bare\<lparr> ls_probe_ok := True, idb := Opened db_ab,
        window := window_android bridge_abx \<rparr>"
  let ?e2 = "env_bare\<lparr> idb := Opened db_ab, window := window_android bridge_abx \<rparr>"
  let ?e3 = "env_bare\<lparr> window := window_android bridge_abx \<rparr>"
  have h1: "ls_probe_ok ?e1" "idb_loads ?e1"
    by (simp_all add: env_bare_def idb_loads_def db_ab_def)
  have h2: "\<not> ls_probe_ok ?e2" "idb_loads ?e2"
    by (simp_all add: env_bare_def idb_loads_def db_ab_def)
  have h3: "\<not> ls_probe_ok ?e3" "idb_fails ?e3" "first_bridge ?e3 = Some ''Android''"
    by (simp_all add: env_bare_def idb_fails_def first_bridge_def candidates_def
        bridge_usable_def window_android_def bridge_abx_def)
  have h4: "\<not> ls_probe_ok env_bare" "idb_fails env_bare" "first_bridge env_bare = None"
    by (simp_all add: env_bare_def idb_fails_def first_bridge_def candidates_def
        bridge_usable_def)
  show ?thesis
    using h1 h2 h3 h4
      backend_priority [where e = ?e1 and n = "''Android''"]
      backend_priority [where e = ?e2 and n = "''Android''"]
      backend_priority [where e = ?e3 and n = "''Android''"]
      backend_priority [where e = env_bare and n = "''Android''"]
    by simp
qed

section \<open>The facade\<close>

lemma cache_setItem [simp]:
  "cache (setItem e s k v) = cache_put (cache s) k (String_js v)"
  by (simp add: setItem_def call_persistSet_def try_native_def split: set_binding.splits)

lemma cache_removeItem [simp]:
  "cache (removeItem e s k) = cache_delete (cache s) k"
  by (simp add: removeItem_def call_persistRemove_def try_native_def
      split: remove_binding.splits)

lemma cache_clear [simp]:
  "cache (clear e s) = Map.empty"
  by (simp add: clear_def call_persistClear_def try_native_def split: clear_binding.splits)

lemma backend_apply_op [simp]:
  "backend (apply_op e s x) = backend s"
  by (cases x)
     (simp_all add: setItem_def removeItem_def clear_def call_persistSet_def
        call_persistRemove_def call_persistClear_def try_native_def
        split: set_binding.splits remove_binding.splits clear_binding.splits)

lemma backend_run_ops:
  "backend (run_ops e s ops) = backend s"
  unfolding run_ops_def by (induction ops arbitrary: s) simp_all

lemma bindings_apply_op [simp]:
  "persistSet (apply_op e s x) = persistSet s"
  "persistRemove (apply_op e s x) = persistRemove s"
  "persistClear (apply_op e s x) = persistClear s"
  by (cases x;
      simp add: setItem_def removeItem_def clear_def call_persistSet_def
        call_persistRemove_def call_persistClear_def try_native_def
        split: set_binding.splits remove_binding.splits clear_binding.splits)+

text \<open>With the three helpers still the initial no-ops, no native call is made.\<close>

lemma calls_apply_op_noop:
  "persistSet s = SetNoop \<Longrightarrow> persistRemove s = RemoveNoop \<Longrightarrow>
   persistClear s = ClearNoop \<Longrightarrow> calls (apply_op e s x) = calls s"
  by (cases x)
     (simp_all add: setItem_def removeItem_def clear_def call_persistSet_def
        call_persistRemove_def call_persistClear_def)

lemma calls_run_ops_noop:
  "persistSet s = SetNoop \<Longrightarrow> persistRemove s = RemoveNoop \<Longrightarrow>
   persistClear s = ClearNoop \<Longrightarrow> calls (run_ops e s ops) = calls s"
  unfolding run_ops_def
  by (induction ops arbitrary: s) (simp_all add: calls_apply_op_noop)

lemma cache_apply_op_ordinary:
  "ordinary_op x \<Longrightarrow> cache (apply_op e s x) k = last_operation k (cache s k) x"
  by (cases x) (auto simp: cache_put_def cache_delete_def)

lemma hasOwnProperty_apply_op_ordinary:
  "ordinary_op x \<Longrightarrow> cache s ''hasOwnProperty'' = None \<Longrightarrow>
     cache (apply_op e s x) ''hasOwnProperty'' = None"
  by (cases x) (auto simp: cache_put_def cache_delete_def)

text \<open>
  As long as no call writes the keys \<^verbatim>\<open>__proto__\<close> and \<^verbatim>\<open>hasOwnProperty\<close>, a read
  returns what the last call on its key left, whatever the helpers are bound to and
  whichever native calls throw.
\<close>

lemma cache_first_ordinary_keys:
  "list_all ordinary_op ops \<Longrightarrow> cache s ''hasOwnProperty'' = None \<Longrightarrow>
     getItem (run_ops e s ops) k = Inr (foldl (last_operation k) (cache s k) ops)"
  unfolding run_ops_def
proof (induction ops arbitrary: s)
  case Nil
  then show ?case by (simp add: getItem_def)
next
  case (Cons x ops)
  have "cache (apply_op e s x) ''hasOwnProperty'' = None"
    using Cons.prems by (simp add: hasOwnProperty_apply_op_ordinary)
  moreover have "list_all ordinary_op ops"
    using Cons.prems by simp
  ultimately have "getItem (foldl (apply_op e) (apply_op e s x) ops) k
      = Inr (foldl (last_operation k) (cache (apply_op e s x) k) ops)"
    by (rule Cons.IH [rotated])
  then show ?case
    using Cons.prems by (simp add: cache_apply_op_ordinary)
qed

lemma roundtrip_ordinary_keys:
  "k \<noteq> ''__proto__'' \<Longrightarrow> k \<noteq> ''hasOwnProperty'' \<Longrightarrow> cache s ''hasOwnProperty'' = None \<Longrightarrow>
     getItem (setItem e s k (JStr v)) k = Inr (Some v)"
  by (simp add: getItem_def cache_put_def)

lemma getItem_absent:
  "cache s ''hasOwnProperty'' = None \<Longrightarrow> cache s k = None \<Longrightarrow> getItem s k = Inr None"
  by (simp add: getItem_def)

lemma getItem_fresh:
  "getItem storage0 k = Inr None"
  by (simp add: getItem_def storage0_def)

section \<open>Reads after a write to a key that Object.prototype also has\<close>

text \<open>
  Claim C4 (round trip) at the key \<^verbatim>\<open>__proto__\<close>: in a session on a working
  localStorage, \<^verbatim>\<open>setItem('__proto__', 'x')\<close> followed by \<^verbatim>\<open>getItem('__proto__')\<close>
  returns null, not \<^verbatim>\<open>'x'\<close>, because the assignment to the cache ran the inherited
  setter and stored nothing.
\<close>

theorem roundtrip_lost_at_proto_key:
  "getItem (setItem (env_bare\<lparr> ls_probe_ok := True \<rparr>)
             (booted (env_bare\<lparr> ls_probe_ok := True \<rparr>)) ''__proto__'' (JStr ''x''))
     ''__proto__'' = Inr None"
  by (simp add: getItem_def cache_put_def booted_def init_def tryLocalStorage_def
      ls_after_probe_def env_bare_def storage0_def)

text \<open>
  Claim C1 (cache first) after a write to the key \<^verbatim>\<open>hasOwnProperty\<close>: the calls
  \<^verbatim>\<open>setItem('hasOwnProperty', '1')\<close>, \<^verbatim>\<open>setItem('a', '2')\<close> leave a cache on which
  \<^verbatim>\<open>getItem('a')\<close> throws a TypeError instead of returning \<^verbatim>\<open>'2'\<close>, and the write to
  \<^verbatim>\<open>hasOwnProperty\<close> itself cannot be read back either.
\<close>

theorem cache_first_broken_by_hasOwnProperty:
  "getItem (run_ops (env_bare\<lparr> ls_probe_ok := True \<rparr>)
             (booted (env_bare\<lparr> ls_probe_ok := True \<rparr>))
             [SetItem ''hasOwnProperty'' (JStr ''1''), SetItem ''a'' (JStr ''2'')]) ''a''
     = Inl TypeError
   \<and> getItem (run_ops (env_bare\<lparr> ls_probe_ok := True \<rparr>)
             (booted (env_bare\<lparr> ls_probe_ok := True \<rparr>))
             [SetItem ''hasOwnProperty'' (JStr ''1''), SetItem ''a'' (JStr ''2'')])
       ''hasOwnProperty''
     = Inl TypeError"
  by (simp add: run_ops_def getItem_def cache_put_def)

text \<open>
  Claim C10 (absence is decided by an own-property test) after the same kind of write:
  once \<^verbatim>\<open>setItem('hasOwnProperty', '')\<close> has run on a fresh cache, \<^verbatim>\<open>getItem\<close> of the
  never written key \<^verbatim>\<open>toString\<close> throws instead of returning null, and \<^verbatim>\<open>getItem\<close> of
  the key whose stored value is the empty string throws instead of returning it.
\<close>

theorem own_property_test_shadowed:
  "getItem (setItem env_bare storage0 ''hasOwnProperty'' (JStr '''')) ''toString''
     = Inl TypeError
   \<and> cache (setItem env_bare storage0 ''hasOwnProperty'' (JStr '''')) ''hasOwnProperty''
     = Some ''''
   \<and> getItem (setItem env_bare storage0 ''hasOwnProperty'' (JStr '''')) ''hasOwnProperty''
     = Inl TypeError"
  by (simp add: getItem_def cache_put_def)

section \<open>Readiness\<close>

text \<open>How \<^verbatim>\<open>storage.ready\<close> ends, read off the environment.\<close>

lemma ready_outcomes:
  "ready e =
     (if ls_probe_ok e then Resolved ()
      else case idb e of
             NoIndexedDB \<Rightarrow> Resolved ()
           | OpenError \<Rightarrow> Resolved ()
           | OpenStalls \<Rightarrow> Pending
           | Opened db \<Rightarrow>
               (if tx_throws db then Resolved ()
                else case cursor_ends db of
                       CursorDone \<Rightarrow> Resolved ()
                     | CursorError \<Rightarrow> Rejected
                     | CursorStalls \<Rightarrow> Pending))"
proof (cases "ls_probe_ok e")
  case True
  then show ?thesis by (simp add: tier_localStorage(1))
next
  case ls: False
  show ?thesis
  proof (cases "idb_fails e")
    case True
    have "ready e = Resolved ()"
      using ls True tier_bridge(1) [of e] tier_memory(1) [of e]
      by (cases "first_bridge e") simp_all
    then show ?thesis
      using ls True by (simp add: idb_fails_def split: idb_open.splits)
  next
    case False
    then show ?thesis
      using ls
      by (auto simp: ready_def init_after_localStorage tryIndexedDB_def idb_fails_def Let_def
          split: idb_open.splits cursor_end.splits)
  qed
qed

lemma ready_resolved_cases:
  assumes "ready e = Resolved ()"
  shows "ls_probe_ok e \<or> (\<not> ls_probe_ok e \<and> idb_loads e) \<or> (\<not> ls_probe_ok e \<and> idb_fails e)"
  using assms unfolding ready_outcomes
  by (auto simp: idb_loads_def idb_fails_def split: if_splits idb_open.splits cursor_end.splits)

text \<open>
  Claim C2 at a database that opens and whose read cursor fires its error event, with a
  usable bridge object present: the promise of \<^verbatim>\<open>tryIndexedDB\<close> is rejected, \<^verbatim>\<open>init\<close>
  does not go on to the bridge, \<^verbatim>\<open>storage.ready\<close> is rejected, and the tag stays at
  ``indexedDB'' with the persistence helpers still the initial no-ops.
\<close>

theorem cursor_error_rejects_readiness:
  "first_bridge (env_bare\<lparr> idb := Opened (db_ab\<lparr> cursor_ends := CursorError \<rparr>),
                    window := window_android bridge_abx \<rparr>) = Some ''Android''
   \<and> ready (env_bare\<lparr> idb := Opened (db_ab\<lparr> cursor_ends := CursorError \<rparr>),
                    window := window_android bridge_abx \<rparr>) = Rejected
   \<and> backend (booted (env_bare\<lparr> idb := Opened (db_ab\<lparr> cursor_ends := CursorError \<rparr>),
                    window := window_android bridge_abx \<rparr>)) = ''indexedDB''
   \<and> persistSet (booted (env_bare\<lparr> idb := Opened (db_ab\<lparr> cursor_ends := CursorError \<rparr>),
                    window := window_android bridge_abx \<rparr>)) = SetNoop"
  by (simp add: ready_def booted_def init_def tryLocalStorage_def tryIndexedDB_def
      env_bare_def db_ab_def storage0_def first_bridge_def candidates_def bridge_usable_def
      window_android_def bridge_abx_def)

section \<open>The in-memory fallback\<close>

lemma bridge_loop_no_objects:
  "\<forall>name \<in> set names. window e name = None \<Longrightarrow> bridge_loop e names s = (False, s)"
  by (induction names) simp_all

text \<open>
  With no native store and no bridge object at all, readiness resolves with the tag
  ``memory'', the three helpers are the initial no-ops, and no sequence of facade calls
  makes a native call.
\<close>

lemma fallback_in_memory:
  assumes "\<not> ls_probe_ok e" and "idb_fails e"
    and "\<forall>name \<in> set candidates. window e name = None"
  shows "ready e = Resolved ()" and "backend (booted e) = ''memory''"
    and "calls (run_ops e (booted e) ops) = []"
proof -
  have nb: "first_bridge e = None"
    using assms(3) by (simp add: first_bridge_def find_None_iff bridge_usable_def)
  show "ready e = Resolved ()" and "backend (booted e) = ''memory''"
    using assms(1,2) nb by (rule tier_memory)+
  let ?s = "snd (tryIndexedDB e storage0)"
  have b: "booted e = ?s\<lparr> cache := load_cookies e (cache ?s), backend := ''memory'' \<rparr>"
    using assms(1,2) nb bridge_loop_no_objects [OF assms(3), of ?s]
    by (simp add: booted_def init_memory tryAndroidBridge_def)
  have "persistSet (booted e) = SetNoop" and "persistRemove (booted e) = RemoveNoop"
    and "persistClear (booted e) = ClearNoop" and "calls (booted e) = []"
    using tryIndexedDB_fails_state [OF assms(2), of storage0]
    by (simp_all add: b storage0_def)
  then show "calls (run_ops e (booted e) ops) = []"
    by (simp add: calls_run_ops_noop)
qed

text \<open>
  Claim C5 (the fallback never throws) at two sessions in which every native backend is
  absent. In the first the cookie text is \<^verbatim>\<open>hasOwnProperty=1\<close>: readiness resolves, the
  tag is ``memory'', and the first \<^verbatim>\<open>getItem\<close> throws a TypeError. In the second there
  is no cookie text, and \<^verbatim>\<open>getItem\<close> throws after \<^verbatim>\<open>setItem('hasOwnProperty', 'x')\<close>.
\<close>

theorem fallback_getItem_throws:
  "ready (env_bare\<lparr> document_cookie := Some ''hasOwnProperty=1'' \<rparr>) = Resolved ()
   \<and> backend (booted (env_bare\<lparr> document_cookie := Some ''hasOwnProperty=1'' \<rparr>)) = ''memory''
   \<and> getItem (booted (env_bare\<lparr> document_cookie := Some ''hasOwnProperty=1'' \<rparr>))
        ''migstar_user'' = Inl TypeError
   \<and> ready env_bare = Resolved ()
   \<and> backend (booted env_bare) = ''memory''
   \<and> getItem (setItem env_bare (booted env_bare) ''hasOwnProperty'' (JStr ''x''))
        ''migstar_user'' = Inl TypeError"
  by (simp add: ready_def booted_def init_def tryLocalStorage_def tryIndexedDB_def
      tryAndroidBridge_def candidates_def env_bare_def storage0_def load_cookies_def
      cookie_parts_def cookie_entry_def cache_put_def getItem_def)

text \<open>
  A bridge object that has \<^verbatim>\<open>setItem\<close> but no \<^verbatim>\<open>getItem\<close> is not usable, and the tag
  ends as ``memory''; the helper \<^verbatim>\<open>persistSet\<close> bound while that object was examined
  stays bound, so a later \<^verbatim>\<open>setItem\<close> still calls the bridge.
\<close>

lemma fallback_keeps_bridge_setter:
  "backend (booted (env_bare\<lparr> window := window_android (bridge_plain\<lparr> has_setItem := True \<rparr>) \<rparr>))
     = ''memory''
   \<and> calls (setItem (env_bare\<lparr> window := window_android (bridge_plain\<lparr> has_setItem := True \<rparr>) \<rparr>)
        (booted (env_bare\<lparr> window := window_android (bridge_plain\<lparr> has_setItem := True \<rparr>) \<rparr>))
        ''a'' (JStr ''1''))
     = [Bridge_setItem ''Android'' ''a'' ''1'']"
  by (simp add: booted_def init_def tryLocalStorage_def tryIndexedDB_def
      tryAndroidBridge_def candidates_def env_bare_def storage0_def window_android_def
      bridge_plain_def bind_bridge_set_def load_cookies_def cookie_parts_def setItem_def
      call_persistSet_def try_native_def cache_put_def)

section \<open>The backend tag\<close>

text \<open>
  Claim C6 as stated fails: with localStorage and IndexedDB absent and an object
  \<^verbatim>\<open>window.Android\<close> that has no \<^verbatim>\<open>getItem\<close>, the bridge attempt leaves the tag
  ``android:Android'' and \<^verbatim>\<open>init\<close> then overwrites it with ``memory''.
\<close>

theorem backend_tag_assigned_twice:
  "backend (snd (tryAndroidBridge (env_bare\<lparr> window := window_android bridge_plain \<rparr>)
       (snd (tryIndexedDB (env_bare\<lparr> window := window_android bridge_plain \<rparr>)
          (snd (tryLocalStorage (env_bare\<lparr> window := window_android bridge_plain \<rparr>)
             storage0)))))) = ''android:Android''
   \<and> ready (env_bare\<lparr> window := window_android bridge_plain \<rparr>) = Resolved ()
   \<and> backend (booted (env_bare\<lparr> window := window_android bridge_plain \<rparr>)) = ''memory''"
  by (simp add: ready_def booted_def init_def tryLocalStorage_def tryIndexedDB_def
      tryAndroidBridge_def candidates_def env_bare_def storage0_def window_android_def
      bridge_plain_def load_cookies_def cookie_parts_def)

text \<open>
  Claim C6 as amended. When readiness has resolved, the tag is the identifier of one
  tier (``localStorage'', ``indexedDB'', ``memory'', or ``android:'' followed by a
  candidate name), it is not the initial ``none'', and no sequence of
  \<^verbatim>\<open>setItem\<close>, \<^verbatim>\<open>removeItem\<close> and \<^verbatim>\<open>clear\<close> calls changes it.
\<close>

theorem backend_tag_after_readiness:
  assumes "ready e = Resolved ()"
  shows "backend (booted e) \<in> set tier_tags \<and> backend (booted e) \<noteq> ''none''
     \<and> backend (run_ops e (booted e) ops) = backend (booted e)"
proof -
  have tag: "backend (booted e) \<in> set tier_tags"
  proof -
    consider "ls_probe_ok e" | "\<not> ls_probe_ok e" "idb_loads e" | "\<not> ls_probe_ok e" "idb_fails e"
      using ready_resolved_cases [OF assms] by blast
    then show ?thesis
    proof cases
      case 1
      then show ?thesis by (simp add: tier_localStorage(2) tier_tags_def)
    next
      case 2
      then show ?thesis by (simp add: tier_indexedDB(2) tier_tags_def)
    next
      case 3
      show ?thesis
      proof (cases "first_bridge e")
        case None
        with 3 show ?thesis by (simp add: tier_memory(2) tier_tags_def)
      next
        case (Some n)
        then have "n \<in> set candidates"
          by (auto simp: first_bridge_def find_Some_iff)
        moreover have "backend (booted e) = ''android:'' @ n"
          using 3 Some by (rule tier_bridge(2))
        ultimately show ?thesis by (simp add: tier_tags_def)
      qed
    qed
  qed
  moreover have "''none'' \<notin> set tier_tags"
    by (simp add: tier_tags_def candidates_def)
  ultimately show ?thesis
    by (auto simp: backend_run_ops)
qed

theorem backend_tag_after_readiness_witness:
  "ready (env_bare\<lparr> window := window_android bridge_plain \<rparr>) = Resolved ()
   \<and> backend (booted (env_bare\<lparr> window := window_android bridge_plain \<rparr>)) \<in> set tier_tags
   \<and> backend (run_ops (env_bare\<lparr> window := window_android bridge_plain \<rparr>)
        (booted (env_bare\<lparr> window := window_android bridge_plain \<rparr>))
        [SetItem ''a'' (JStr ''1''), Clear])
      = backend (booted (env_bare\<lparr> window := window_android bridge_plain \<rparr>))"
proof -
  have h: "ready (env_bare\<lparr> window := window_android bridge_plain \<rparr>) = Resolved ()"
    by (simp add: ready_outcomes env_bare_def)
  show ?thesis
    using h backend_tag_after_readiness [OF h, of "[SetItem ''a'' (JStr ''1''), Clear]"]
    by simp
qed

section \<open>Bulk load from localStorage and IndexedDB\<close>

lemma ls_load_other:
  "k \<notin> fst ` set xs \<Longrightarrow> ls_load xs c k = c k"
  by (induction xs arbitrary: c) (auto simp: cache_put_def)

lemma ls_load_entry:
  "distinct (map fst xs) \<Longrightarrow> (k, v) \<in> set xs \<Longrightarrow> k \<noteq> [] \<Longrightarrow> k \<noteq> ''__proto__'' \<Longrightarrow>
     ls_load xs c k = Some v"
proof (induction xs arbitrary: c)
  case Nil
  then show ?case by simp
next
  case (Cons x xs)
  obtain k' v' where x: "x = (k', v')" by (cases x)
  show ?case
  proof (cases "(k, v) = (k', v')")
    case True
    then have "k \<notin> fst ` set xs"
      using Cons.prems(1) x by simp
    then show ?thesis
      using True x Cons.prems(3,4) by (simp add: ls_load_other cache_put_def)
  next
    case False
    then have "(k, v) \<in> set xs"
      using Cons.prems(2) x by auto
    moreover have "distinct (map fst xs)"
      using Cons.prems(1) by simp
    ultimately show ?thesis
      using x Cons.IH Cons.prems(3,4) by simp
  qed
qed

lemma idb_load_other:
  "k \<notin> fst ` set xs \<Longrightarrow> idb_load xs c k = c k"
  by (induction xs arbitrary: c) (auto simp: cache_put_def)

lemma idb_load_entry:
  "distinct (map fst xs) \<Longrightarrow> (k, v) \<in> set xs \<Longrightarrow> k \<noteq> ''__proto__'' \<Longrightarrow>
     idb_load xs c k = Some v"
proof (induction xs arbitrary: c)
  case Nil
  then show ?case by simp
next
  case (Cons x xs)
  obtain k' v' where x: "x = (k', v')" by (cases x)
  show ?case
  proof (cases "(k, v) = (k', v')")
    case True
    then have "k \<notin> fst ` set xs"
      using Cons.prems(1) x by simp
    then show ?thesis
      using True x Cons.prems(3) by (simp add: idb_load_other cache_put_def)
  next
    case False
    then have "(k, v) \<in> set xs"
      using Cons.prems(2) x by auto
    moreover have "distinct (map fst xs)"
      using Cons.prems(1) by simp
    ultimately show ?thesis
      using x Cons.IH Cons.prems(3) by simp
  qed
qed

lemma booted_localStorage:
  assumes "ls_probe_ok e"
  shows "cache (booted e) = ls_load (ls_after_probe (ls_entries e)) Map.empty"
    and "calls (booted e) = []"
  using assms
  by (simp_all add: booted_def init_localStorage tryLocalStorage_def storage0_def)

lemma booted_indexedDB:
  assumes "\<not> ls_probe_ok e" and "idb e = Opened db" and "\<not> tx_throws db"
    and "cursor_ends db = CursorDone"
  shows "cache (booted e) = idb_load (kv db) Map.empty" and "calls (booted e) = []"
proof -
  have "idb_loads e"
    using assms by (simp add: idb_loads_def)
  then have "booted e = snd (tryIndexedDB e storage0)"
    using assms(1) by (simp add: booted_def init_indexedDB)
  then show "cache (booted e) = idb_load (kv db) Map.empty" and "calls (booted e) = []"
    using assms by (simp_all add: tryIndexedDB_def storage0_def)
qed

text \<open>
  Claim C7 as stated fails. A localStorage that holds a under \<^verbatim>\<open>'a'\<close>, an entry under
  the empty key and an entry under \<^verbatim>\<open>__mig_test__\<close> is the selected backend; after
  readiness the entry under the empty key is not in the cache (\<^verbatim>\<open>if (k)\<close> skips it), nor
  is the one under \<^verbatim>\<open>__mig_test__\<close> (the probe removed it). A bridge that holds a, b and
  x is the selected backend, and after readiness \<^verbatim>\<open>getItem('a')\<close> returns null.
\<close>

theorem bulk_load_misses_entries:
  "ready (env_bare\<lparr> ls_probe_ok := True,
         ls_entries := [(''a'', ''1''), ('''', ''2''), (''__mig_test__'', ''3'')] \<rparr>)
     = Resolved ()
   \<and> backend (booted (env_bare\<lparr> ls_probe_ok := True,
         ls_entries := [(''a'', ''1''), ('''', ''2''), (''__mig_test__'', ''3'')] \<rparr>))
     = ''localStorage''
   \<and> getItem (booted (env_bare\<lparr> ls_probe_ok := True,
         ls_entries := [(''a'', ''1''), ('''', ''2''), (''__mig_test__'', ''3'')] \<rparr>)) ''a''
     = Inr (Some ''1'')
   \<and> getItem (booted (env_bare\<lparr> ls_probe_ok := True,
         ls_entries := [(''a'', ''1''), ('''', ''2''), (''__mig_test__'', ''3'')] \<rparr>)) ''''
     = Inr None
   \<and> getItem (booted (env_bare\<lparr> ls_probe_ok := True,
         ls_entries := [(''a'', ''1''), ('''', ''2''), (''__mig_test__'', ''3'')] \<rparr>))
        ''__mig_test__''
     = Inr None
   \<and> ready (env_bare\<lparr> window := window_android bridge_abx \<rparr>) = Resolved ()
   \<and> backend (booted (env_bare\<lparr> window := window_android bridge_abx \<rparr>)) = ''android:Android''
   \<and> bridge_getItem bridge_abx ''a'' = Value ''1''
   \<and> getItem (booted (env_bare\<lparr> window := window_android bridge_abx \<rparr>)) ''a'' = Inr None"
  by (simp add: ready_def booted_def init_def tryLocalStorage_def tryIndexedDB_def
      tryAndroidBridge_def candidates_def keysToTry_def env_bare_def storage0_def
      window_android_def bridge_abx_def bind_bridge_set_def cache_put_def getItem_def
      ls_after_probe_def testKey_def)

text \<open>
  Claim C7 as amended. Let the keys of the store be distinct. When localStorage is the
  selected backend, every entry that it held at the start under a key that is neither
  empty nor the probe's \<^verbatim>\<open>__mig_test__\<close> nor \<^verbatim>\<open>__proto__\<close> is in the cache once readiness
  has resolved, with no facade call and no native persistence call made. When IndexedDB
  is the selected backend and its cursor ran to the end, the same holds for every entry
  it held under a key other than \<^verbatim>\<open>__proto__\<close>. In both cases \<^verbatim>\<open>getItem\<close> returns the
  entry's value provided the store holds no entry under the key \<^verbatim>\<open>hasOwnProperty\<close>.
\<close>

theorem bulk_load_fidelity:
  "(ls_probe_ok e \<and> distinct (map fst (ls_entries e))
      \<and> (k, v) \<in> set (ls_entries e) \<and> k \<noteq> [] \<and> k \<noteq> testKey \<and> k \<noteq> ''__proto__''
    \<longrightarrow> ready e = Resolved () \<and> backend (booted e) = ''localStorage''
        \<and> calls (booted e) = [] \<and> cache (booted e) k = Some v
        \<and> (''hasOwnProperty'' \<notin> fst ` set (ls_entries e)
             \<longrightarrow> getItem (booted e) k = Inr (Some v)))
   \<and> (\<not> ls_probe_ok e \<and> idb e = Opened db \<and> \<not> tx_throws db \<and> cursor_ends db = CursorDone
      \<and> distinct (map fst (kv db)) \<and> (k, v) \<in> set (kv db) \<and> k \<noteq> ''__proto__''
    \<longrightarrow> ready e = Resolved () \<and> backend (booted e) = ''indexedDB''
        \<and> calls (booted e) = [] \<and> cache (booted e) k = Some v
        \<and> (''hasOwnProperty'' \<notin> fst ` set (kv db)
             \<longrightarrow> getItem (booted e) k = Inr (Some v)))"
proof (intro conjI impI)
  assume a: "ls_probe_ok e \<and> distinct (map fst (ls_entries e))
      \<and> (k, v) \<in> set (ls_entries e) \<and> k \<noteq> [] \<and> k \<noteq> testKey \<and> k \<noteq> ''__proto__''"
  then have ls: "ls_probe_ok e" by simp
  show "ready e = Resolved ()" by (rule tier_localStorage(1) [OF ls])
  show "backend (booted e) = ''localStorage''" by (rule tier_localStorage(2) [OF ls])
  show "calls (booted e) = []" by (rule booted_localStorage(2) [OF ls])
  have "distinct (map fst (ls_after_probe (ls_entries e)))"
    using a by (simp add: ls_after_probe_def distinct_map_filter)
  moreover have "(k, v) \<in> set (ls_after_probe (ls_entries e))"
    using a by (simp add: ls_after_probe_def)
  ultimately show c: "cache (booted e) k = Some v"
    using a by (simp add: booted_localStorage(1) [OF ls] ls_load_entry)
  assume "''hasOwnProperty'' \<notin> fst ` set (ls_entries e)"
  then have "''hasOwnProperty'' \<notin> fst ` set (ls_after_probe (ls_entries e))"
    by (auto simp: ls_after_probe_def)
  then have "cache (booted e) ''hasOwnProperty'' = None"
    by (simp add: booted_localStorage(1) [OF ls] ls_load_other)
  then show "getItem (booted e) k = Inr (Some v)"
    using c by (simp add: getItem_def)
next
  assume a: "\<not> ls_probe_ok e \<and> idb e = Opened db \<and> \<not> tx_throws db
      \<and> cursor_ends db = CursorDone
      \<and> distinct (map fst (kv db)) \<and> (k, v) \<in> set (kv db) \<and> k \<noteq> ''__proto__''"
  then have h: "\<not> ls_probe_ok e" "idb e = Opened db" "\<not> tx_throws db"
      "cursor_ends db = CursorDone"
    by simp_all
  have l: "idb_loads e"
    using h by (simp add: idb_loads_def)
  show "ready e = Resolved ()" by (rule tier_indexedDB(1) [OF h(1) l])
  show "backend (booted e) = ''indexedDB''" by (rule tier_indexedDB(2) [OF h(1) l])
  show "calls (booted e) = []" by (rule booted_indexedDB(2) [OF h])
  show c: "cache (booted e) k = Some v"
    using a by (simp add: booted_indexedDB(1) [OF h] idb_load_entry)
  assume "''hasOwnProperty'' \<notin> fst ` set (kv db)"
  then have "cache (booted e) ''hasOwnProperty'' = None"
    by (simp add: booted_indexedDB(1) [OF h] idb_load_other)
  then show "getItem (booted e) k = Inr (Some v)"
    using c by (simp add: getItem_def)
qed

text \<open>The stores of the claim's example, a and b, once in localStorage and once in IndexedDB.\<close>

theorem bulk_load_fidelity_witness:
  "ls_probe_ok (env_bare\<lparr> ls_probe_ok := True, ls_entries := [(''a'', ''1''), (''b'', ''2'')] \<rparr>)
   \<and> getItem (booted (env_bare\<lparr> ls_probe_ok := True,
         ls_entries := [(''a'', ''1''), (''b'', ''2'')] \<rparr>)) ''a'' = Inr (Some ''1'')
   \<and> getItem (booted (env_bare\<lparr> ls_probe_ok := True,
         ls_entries := [(''a'', ''1''), (''b'', ''2'')] \<rparr>)) ''b'' = Inr (Some ''2'')
   \<and> \<not> ls_probe_ok (env_bare\<lparr> idb := Opened db_ab \<rparr>)
   \<and> idb (env_bare\<lparr> idb := Opened db_ab \<rparr>) = Opened db_ab
   \<and> getItem (booted (env_bare\<lparr> idb := Opened db_ab \<rparr>)) ''a'' = Inr (Some ''1'')
   \<and> getItem (booted (env_bare\<lparr> idb := Opened db_ab \<rparr>)) ''b'' = Inr (Some ''2'')"
proof -
  let ?e1 = "env_bare\<lparr> ls_probe_ok := True, ls_entries := [(''a'', ''1''), (''b'', ''2'')] \<rparr>"
  let ?e2 = "env_bare\<lparr> idb := Opened db_ab \<rparr>"
  have h1: "ls_probe_ok ?e1" "distinct (map fst (ls_entries ?e1))"
      "''hasOwnProperty'' \<notin> fst ` set (ls_entries ?e1)"
      "(''a'', ''1'') \<in> set (ls_entries ?e1)" "(''b'', ''2'') \<in> set (ls_entries ?e1)"
      "''a'' \<noteq> testKey" "''b'' \<noteq> testKey"
    by (simp_all add: env_bare_def testKey_def)
  have h2: "\<not> ls_probe_ok ?e2" "idb ?e2 = Opened db_ab" "\<not> tx_throws db_ab"
      "cursor_ends db_ab = CursorDone" "distinct (map fst (kv db_ab))"
      "''hasOwnProperty'' \<notin> fst ` set (kv db_ab)"
      "(''a'', ''1'') \<in> set (kv db_ab)" "(''b'', ''2'') \<in> set (kv db_ab)"
    by (simp_all add: env_bare_def db_ab_def)
  show ?thesis
    using h1 h2
      bulk_load_fidelity [where e = ?e1 and k = "''a''" and v = "''1''"]
      bulk_load_fidelity [where e = ?e1 and k = "''b''" and v = "''2''"]
      bulk_load_fidelity [where e = ?e2 and db = db_ab and k = "''a''" and v = "''1''"]
      bulk_load_fidelity [where e = ?e2 and db = db_ab and k = "''b''" and v = "''2''"]
    by simp
qed

section \<open>Partial load from a bridge\<close>

lemma bridge_load_other:
  "k \<notin> set ks \<Longrightarrow> bridge_load api ks c k = c k"
  by (induction ks arbitrary: c) (auto simp: cache_put_def split: bridge_read.splits)

lemma bridge_load_key:
  "k \<in> set ks \<Longrightarrow> distinct ks \<Longrightarrow> ''__proto__'' \<notin> set ks \<Longrightarrow>
     bridge_load api ks c k = (case bridge_getItem api k of Value v \<Rightarrow> Some v | Throws \<Rightarrow> c k
        | Null \<Rightarrow> c k | Undefined \<Rightarrow> c k)"
proof (induction ks arbitrary: c)
  case Nil
  then show ?case by simp
next
  case (Cons x ks)
  show ?case
  proof (cases "k = x")
    case True
    then have "k \<notin> set ks" and "k \<noteq> ''__proto__''"
      using Cons.prems by auto
    then show ?thesis
      using True by (simp add: bridge_load_other cache_put_def split: bridge_read.splits)
  next
    case False
    then have "k \<in> set ks" "distinct ks" "''__proto__'' \<notin> set ks"
      using Cons.prems by auto
    then show ?thesis
      using False Cons.IH by (simp add: cache_put_def split: bridge_read.splits)
  qed
qed

lemma bridge_load_agree:
  "\<forall>k \<in> set ks. g k = bridge_getItem api k \<Longrightarrow>
     bridge_load (api\<lparr> bridge_getItem := g \<rparr>) ks c = bridge_load api ks c"
  by (induction ks arbitrary: c) simp_all

lemma bridge_loop_cache:
  "find (bridge_usable e) names = Some n \<Longrightarrow> window e n = Some api \<Longrightarrow>
     cache (snd (bridge_loop e names s)) = bridge_load api keysToTry (cache s)"
proof (induction names arbitrary: s)
  case Nil
  then show ?case by simp
next
  case (Cons name rest)
  show ?case
  proof (cases "window e name")
    case None
    with Cons show ?thesis by (simp add: bridge_usable_def)
  next
    case (Some api')
    show ?thesis
    proof (cases "has_getItem api'")
      case True
      then have "n = name"
        using Cons.prems(1) Some by (simp add: bridge_usable_def)
      then show ?thesis
        using True Some Cons.prems(2) by (simp add: Let_def)
    next
      case False
      then show ?thesis
        using Some Cons by (simp add: bridge_usable_def Let_def)
    qed
  qed
qed

lemma bridge_loop_agree:
  assumes "window e n = Some api" and "\<forall>k \<in> set keysToTry. g k = bridge_getItem api k"
  shows "bridge_loop (e\<lparr> window := (window e)(n \<mapsto> api\<lparr> bridge_getItem := g \<rparr>) \<rparr>) names s
     = bridge_loop e names s"
proof (induction names arbitrary: s)
  case Nil
  then show ?case by simp
next
  case (Cons name rest)
  show ?case
  proof (cases "name = n")
    case True
    then show ?thesis
      using assms Cons.IH
      by (simp add: Let_def bind_bridge_set_def bridge_load_agree [OF assms(2)])
  next
    case False
    then show ?thesis
      using Cons.IH by (simp add: Let_def split: option.splits)
  qed
qed

lemma init_bridge_agree:
  assumes "window e n = Some api" and "\<forall>k \<in> set keysToTry. g k = bridge_getItem api k"
  shows "init (e\<lparr> window := (window e)(n \<mapsto> api\<lparr> bridge_getItem := g \<rparr>) \<rparr>) s = init e s"
proof -
  let ?e = "e\<lparr> window := (window e)(n \<mapsto> api\<lparr> bridge_getItem := g \<rparr>) \<rparr>"
  have "tryLocalStorage ?e s = tryLocalStorage e s"
    by (simp add: tryLocalStorage_def)
  moreover have "tryIndexedDB ?e t = tryIndexedDB e t" for t
    by (simp add: tryIndexedDB_def)
  moreover have "tryAndroidBridge ?e t = tryAndroidBridge e t" for t
    unfolding tryAndroidBridge_def by (rule bridge_loop_agree [OF assms])
  moreover have "load_cookies ?e c = load_cookies e c" for c
    by (simp add: load_cookies_def)
  ultimately show ?thesis
    by (simp add: init_def split: prod.splits promise.splits bool.splits)
qed

text \<open>
  Claim C8. Let the bridge be the selected backend: the localStorage probe fails,
  \<^verbatim>\<open>tryIndexedDB\<close> returns false, and \<open>n\<close> is the first candidate name whose object
  \<open>api\<close> has a \<^verbatim>\<open>getItem\<close> function. Then readiness resolves with the tag ``android:''
  followed by \<open>n\<close>; for a key outside the list of well-known keys \<^verbatim>\<open>getItem\<close> returns
  null, whatever the bridge holds for it; for a well-known key whose bridge read returns
  a value, \<^verbatim>\<open>getItem\<close> returns that value; for a well-known key whose bridge read
  returns null or undefined or throws, \<^verbatim>\<open>getItem\<close> returns null; and a bridge whose reads
  agree with those of \<open>api\<close> on the well-known keys leads to the same state, so no other
  key is read.
\<close>

theorem bridge_partial_load:
  assumes "\<not> ls_probe_ok e" and "idb_fails e" and "first_bridge e = Some n"
    and "window e n = Some api"
  shows "ready e = Resolved () \<and> backend (booted e) = ''android:'' @ n
     \<and> (k \<notin> set keysToTry \<longrightarrow> getItem (booted e) k = Inr None)
     \<and> (k \<in> set keysToTry \<and> bridge_getItem api k = Value v
          \<longrightarrow> getItem (booted e) k = Inr (Some v))
     \<and> (k \<in> set keysToTry \<and> bridge_getItem api k \<in> {Null, Undefined, Throws}
          \<longrightarrow> getItem (booted e) k = Inr None)
     \<and> ((\<forall>k' \<in> set keysToTry. g k' = bridge_getItem api k')
          \<longrightarrow> booted (e\<lparr> window := (window e)(n \<mapsto> api\<lparr> bridge_getItem := g \<rparr>) \<rparr>)
              = booted e)"
proof -
  have f: "find (bridge_usable e) candidates = Some n"
    using assms(3) by (simp add: first_bridge_def)
  have "booted e = snd (tryAndroidBridge e (snd (tryIndexedDB e storage0)))"
    using assms(1,2,3) by (simp add: booted_def init_bridge)
  then have "cache (booted e)
      = bridge_load api keysToTry (cache (snd (tryIndexedDB e storage0)))"
    using bridge_loop_cache [OF f assms(4)] by (simp add: tryAndroidBridge_def)
  moreover have "cache (snd (tryIndexedDB e storage0)) = Map.empty"
    using tryIndexedDB_fails_state [OF assms(2), of storage0] by (simp add: storage0_def)
  ultimately have c: "cache (booted e) = bridge_load api keysToTry Map.empty"
    by simp
  have d: "distinct keysToTry" "''__proto__'' \<notin> set keysToTry"
      "''hasOwnProperty'' \<notin> set keysToTry"
    by (simp_all add: keysToTry_def)
  have own: "cache (booted e) ''hasOwnProperty'' = None"
    using d(3) by (simp add: c bridge_load_other)
  have "ready e = Resolved ()"
    using assms(1,2,3) by (rule tier_bridge(1))
  moreover have "backend (booted e) = ''android:'' @ n"
    using assms(1,2,3) by (rule tier_bridge(2))
  moreover have "getItem (booted e) k = Inr None" if "k \<notin> set keysToTry"
    using that own by (simp add: getItem_def c bridge_load_other)
  moreover have "getItem (booted e) k = Inr (Some v)"
    if "k \<in> set keysToTry \<and> bridge_getItem api k = Value v"
    using that own d by (simp add: getItem_def c bridge_load_key)
  moreover have "getItem (booted e) k = Inr None"
    if "k \<in> set keysToTry \<and> bridge_getItem api k \<in> {Null, Undefined, Throws}"
    using that own d by (auto simp: getItem_def c bridge_load_key)
  moreover have "booted (e\<lparr> window := (window e)(n \<mapsto> api\<lparr> bridge_getItem := g \<rparr>) \<rparr>)
      = booted e"
    if "\<forall>k' \<in> set keysToTry. g k' = bridge_getItem api k'"
    using that by (simp add: booted_def init_bridge_agree [OF assms(4)])
  ultimately show ?thesis
    by blast
qed

text \<open>
  A bridge \<^verbatim>\<open>window.Android\<close> that holds a, b, x and the well-known key
  \<^verbatim>\<open>migstar_user\<close>: x is not loaded, \<^verbatim>\<open>migstar_user\<close> is, and a bridge without a, b and x
  gives the same state.
\<close>

theorem bridge_partial_load_witness:
  "\<not> ls_probe_ok (env_bare\<lparr> window := window_android bridge_abx \<rparr>)
   \<and> idb_fails (env_bare\<lparr> window := window_android bridge_abx \<rparr>)
   \<and> first_bridge (env_bare\<lparr> window := window_android bridge_abx \<rparr>) = Some ''Android''
   \<and> window (env_bare\<lparr> window := window_android bridge_abx \<rparr>) ''Android'' = Some bridge_abx
   \<and> bridge_getItem bridge_abx ''x'' = Value ''9''
   \<and> getItem (booted (env_bare\<lparr> window := window_android bridge_abx \<rparr>)) ''x'' = Inr None
   \<and> getItem (booted (env_bare\<lparr> window := window_android bridge_abx \<rparr>)) ''migstar_user''
       = Inr (Some ''{}'')
   \<and> getItem (booted (env_bare\<lparr> window := window_android bridge_abx \<rparr>)) ''migstar_history''
       = Inr None
   \<and> booted (env_bare\<lparr> window := window_android bridge_abx \<rparr>
        \<lparr> window := (window (env_bare\<lparr> window := window_android bridge_abx \<rparr>))
             (''Android'' \<mapsto> bridge_abx\<lparr> bridge_getItem :=
                (\<lambda>k. if k = ''migstar_user'' then Value ''{}'' else Null) \<rparr>) \<rparr>)
       = booted (env_bare\<lparr> window := window_android bridge_abx \<rparr>)"
proof -
  let ?e = "env_bare\<lparr> window := window_android bridge_abx \<rparr>"
  let ?g = "\<lambda>k. if k = ''migstar_user'' then Value ''{}'' else Null"
  have h: "\<not> ls_probe_ok ?e" "idb_fails ?e" "first_bridge ?e = Some ''Android''"
      "window ?e ''Android'' = Some bridge_abx"
    by (simp_all add: env_bare_def idb_fails_def first_bridge_def candidates_def
        bridge_usable_def window_android_def bridge_abx_def)
  have r: "bridge_getItem bridge_abx ''x'' = Value ''9''"
      "bridge_getItem bridge_abx ''migstar_user'' = Value ''{}''"
      "bridge_getItem bridge_abx ''migstar_history'' = Null"
    by (simp_all add: bridge_abx_def)
  have k: "''x'' \<notin> set keysToTry" "''migstar_user'' \<in> set keysToTry"
      "''migstar_history'' \<in> set keysToTry"
    by (simp_all add: keysToTry_def)
  have g: "\<forall>k' \<in> set keysToTry. ?g k' = bridge_getItem bridge_abx k'"
    by (simp add: keysToTry_def bridge_abx_def)
  show ?thesis
    using h r k g
      bridge_partial_load [OF h, where k = "''x''" and g = ?g]
      bridge_partial_load [OF h, where k = "''migstar_user''" and v = "''{}''" and g = ?g]
      bridge_partial_load [OF h, where k = "''migstar_history''" and g = ?g]
    by simp
qed

section \<open>The cookie fallback\<close>

text \<open>
  Claim C9 at the cookie text \<^verbatim>\<open>foo; a=1\<close>, with no native store and no bridge object.
  The entry \<^verbatim>\<open>foo\<close> is not of the form key=value. It is not skipped: \<^verbatim>\<open>'foo'.split('=')\<close>
  has one part, the pattern \<^verbatim>\<open>[k,v]\<close> leaves \<^verbatim>\<open>v\<close> undefined, \<^verbatim>\<open>decodeURIComponent\<close> turns
  that into the text \<^verbatim>\<open>undefined\<close> without throwing, and the cache receives the entry
  \<^verbatim>\<open>foo\<close> with the value \<^verbatim>\<open>'undefined'\<close>, which \<^verbatim>\<open>getItem('foo')\<close> then returns. The
  entry after it is loaded.
\<close>

theorem cookie_entry_without_equals:
  "ready (env_bare\<lparr> document_cookie := Some ''foo; a=1'' \<rparr>) = Resolved ()
   \<and> backend (booted (env_bare\<lparr> document_cookie := Some ''foo; a=1'' \<rparr>)) = ''memory''
   \<and> cookie_parts (Some ''foo; a=1'') = [[''foo''], [''a'', ''1'']]
   \<and> cache (booted (env_bare\<lparr> document_cookie := Some ''foo; a=1'' \<rparr>))
       = [''foo'' \<mapsto> ''undefined'', ''a'' \<mapsto> ''1'']
   \<and> getItem (booted (env_bare\<lparr> document_cookie := Some ''foo; a=1'' \<rparr>)) ''foo''
       = Inr (Some ''undefined'')"
  by (simp add: ready_def booted_def init_def tryLocalStorage_def tryIndexedDB_def
      tryAndroidBridge_def candidates_def env_bare_def storage0_def load_cookies_def
      cookie_parts_def cookie_entry_def cache_put_def getItem_def)

text \<open>
  What the \<^verbatim>\<open>try\<close> around one entry does achieve: an undecodable entry adds nothing, and
  the entries before and after it are loaded as if it were not in the list.
\<close>

lemma cookie_entry_undecodable:
  "undecodable dec parts \<Longrightarrow> cookie_entry dec c parts = c"
  by (auto simp: undecodable_def cookie_entry_def split: option.splits)

lemma cookie_fold_skips_undecodable:
  "foldl (cookie_entry dec) c ps
     = foldl (cookie_entry dec) c (filter (\<lambda>p. \<not> undecodable dec p) ps)"
  by (induction ps arbitrary: c) (simp_all add: cookie_entry_undecodable)

lemma cookie_undecodable_entries_skipped:
  assumes "\<not> ls_probe_ok e" and "idb_fails e" and "first_bridge e = None"
  shows "ready e = Resolved () \<and> backend (booted e) = ''memory''
     \<and> cache (booted e)
        = foldl (cookie_entry (decodeURIComponent e)) Map.empty
            (filter (\<lambda>p. \<not> undecodable (decodeURIComponent e) p)
               (cookie_parts (document_cookie e)))"
proof -
  let ?s2 = "snd (tryIndexedDB e storage0)"
  let ?s3 = "snd (tryAndroidBridge e ?s2)"
  have "find (bridge_usable e) candidates = None"
    using assms(3) by (simp add: first_bridge_def)
  then have "cache ?s3 = cache ?s2"
    using bridge_loop_none [of e candidates ?s2] by (simp add: tryAndroidBridge_def)
  also have "\<dots> = Map.empty"
    using tryIndexedDB_fails_state [OF assms(2), of storage0] by (simp add: storage0_def)
  finally have "cache ?s3 = Map.empty" .
  then have "cache (booted e) = load_cookies e Map.empty"
    using assms by (simp add: booted_def init_memory)
  then have "cache (booted e)
      = foldl (cookie_entry (decodeURIComponent e)) Map.empty
          (filter (\<lambda>p. \<not> undecodable (decodeURIComponent e) p)
             (cookie_parts (document_cookie e)))"
    using cookie_fold_skips_undecodable [of "decodeURIComponent e" Map.empty]
    by (simp add: load_cookies_def)
  moreover have "ready e = Resolved ()" and "backend (booted e) = ''memory''"
    using assms by (rule tier_memory)+
  ultimately show ?thesis
    by simp
qed

text \<open>
  The cookie text \<^verbatim>\<open>a=1; b=%; c=3\<close>: the middle entry has a value that cannot be
  decoded; a and c are loaded and b is not.
\<close>

lemma cookie_undecodable_example:
  "cookie_parts (Some ''a=1; b=%; c=3'') = [[''a'', ''1''], [''b'', ''%''], [''c'', ''3'']]
   \<and> undecodable decodeURIComponent_ascii [''b'', ''%'']
   \<and> ready (env_bare\<lparr> document_cookie := Some ''a=1; b=%; c=3'' \<rparr>) = Resolved ()
   \<and> cache (booted (env_bare\<lparr> document_cookie := Some ''a=1; b=%; c=3'' \<rparr>))
       = [''a'' \<mapsto> ''1'', ''c'' \<mapsto> ''3'']"
  by (simp add: ready_def booted_def init_def tryLocalStorage_def tryIndexedDB_def
      tryAndroidBridge_def candidates_def env_bare_def storage0_def load_cookies_def
      cookie_parts_def cookie_entry_def cache_put_def undecodable_def)

end
